theory Spec2Isabelle
  imports Complex_Main
begin

section \<open>Data model\<close>

text \<open>
  The numbers the program is given (milliseconds, attempts, thresholds) are the
  integer-valued doubles, modelled as \<open>int\<close>; the clock and the failure count stay far
  inside the range where doubles count exactly. A number the program computes from them
  can leave the integers: \<open>jsnum\<close> adds \<open>NaN\<close> and the two infinities. The draw of
  \<open>Math.random()\<close> is a \<open>real\<close> supplied by the environment, and so is the rounding of
  a product of doubles to the nearest double. An optional field (\<open>x?: T\<close>) is a
  \<open>T option\<close>.
\<close>

datatype jsnum = Num int | NaN | PosInf | NegInf

datatype CircuitState = CLOSED | OPEN | HALF_OPEN

record CircuitBreakerConfig =
  failureThreshold :: int
  resetTimeoutMs :: int

datatype BackoffStrategy =
    Fixed (delayMs: int)
  | Exponential (baseDelayMs: int) (maxDelayMs: int) (jitter: "bool option")

text \<open>
  A thrown value is either an \<open>Error\<close> object made by the library
  (\<open>new Error(msg)\<close>, identified by its message) or a value of the wrapped callable's own.
\<close>

datatype 'e error = Error string | Thrown 'e

text \<open>
  A promise is described by its fate: it settles \<open>d\<close> milliseconds after it was created,
  fulfilled (\<open>Inr\<close>) or rejected (\<open>Inl\<close>), or it never settles.
\<close>

datatype ('e, 'a) promise = Settles nat "'e error + 'a" | Never

text \<open>
  The hooks are observers that return normally: each firing is appended to a trace. \<open>Invoke\<close> is not a hook; it
  marks the point where the underlying callable is called and records the ambient signal
  slot the callable finds there.
\<close>

datatype 'e event =
    OnAttempt string int
  | OnSuccess string int int
  | OnFailure string int int "'e error"
  | OnRetry string int jsnum "'e error"
  | OnCircuitOpen string
  | OnCircuitHalfOpen string
  | OnCircuitClosed string
  | Invoke int "nat option"

text \<open>
  The state outside the wrapped callable: the clock read by \<open>Date.now()\<close>, the module
  variable \<open>activeSignal\<close>, the supply of fresh abort controllers (a signal is named by
  the number of its controller), the instant at which each controller's \<open>abort()\<close> runs
  if it ever does (for the controller of an attempt, the instant its timeout timer fires),
  and the trace.
\<close>

record 'e world =
  now :: int
  activeSignal :: "nat option"
  nextController :: nat
  abortTimes :: "nat \<Rightarrow> int option"
  trace :: "'e event list"

record CircuitBreaker =
  state :: CircuitState
  failures :: int
  openedAt :: int
  cfg :: CircuitBreakerConfig
  bname :: string

record 'e ResilienceConfig =
  name :: "string option"
  timeoutMs :: "int option"
  retries :: "int option"
  backoff :: "BackoffStrategy option"
  retryOn :: "('e error \<Rightarrow> bool) option"
  circuitBreaker :: "CircuitBreakerConfig option"
  useAbortSignal :: "bool option"

text \<open>
  The wrapped callable and the random source are the environment of a call:
  \<open>fn i\<close> is the promise returned by the invocation made in attempt \<open>i\<close> (a synchronous
  return or throw settles after 0 ms), \<open>fnName\<close> is \<open>fn.name\<close>, \<open>random i\<close> is the
  value \<open>Math.random()\<close> returns when the backoff after attempt \<open>i\<close> is computed, and
  \<open>roundToDouble x\<close> is the double nearest to the real \<open>x\<close> (the result of a floating-point
  multiplication whose exact product is \<open>x\<close>).
\<close>

record ('e, 'a) env =
  fn :: "int \<Rightarrow> ('e, 'a) promise"
  fnName :: "string option"
  random :: "int \<Rightarrow> real"
  roundToDouble :: "real \<Rightarrow> real"

section \<open>Operations\<close>

definition emit :: "'e event \<Rightarrow> 'e world \<Rightarrow> 'e world" where
  "emit e w = w\<lparr>trace := trace w @ [e]\<rparr>"

definition truthy :: "bool option \<Rightarrow> bool" where
  "truthy b = (case b of None \<Rightarrow> False | Some v \<Rightarrow> v)"

subsection \<open>Circuit breaker\<close>

definition newCircuitBreaker :: "CircuitBreakerConfig \<Rightarrow> string \<Rightarrow> CircuitBreaker" where
  "newCircuitBreaker c n =
     \<lparr>state = CLOSED, failures = 0, openedAt = 0, cfg = c, bname = n\<rparr>"

definition canAttempt :: "CircuitBreaker \<Rightarrow> 'e world \<Rightarrow> bool \<times> CircuitBreaker \<times> 'e world" where
  "canAttempt b w =
     (if state b = CLOSED then (True, b, w)
      else if state b = OPEN \<and> now w - openedAt b \<ge> resetTimeoutMs (cfg b)
        then (True, b\<lparr>state := HALF_OPEN\<rparr>, emit (OnCircuitHalfOpen (bname b)) w)
      else (state b = HALF_OPEN, b, w))"

definition onSuccess :: "CircuitBreaker \<Rightarrow> 'e world \<Rightarrow> CircuitBreaker \<times> 'e world" where
  "onSuccess b w =
     (let (b1, w1) = (if state b \<noteq> CLOSED
                      then (b\<lparr>state := CLOSED\<rparr>, emit (OnCircuitClosed (bname b)) w)
                      else (b, w))
      in (b1\<lparr>failures := 0\<rparr>, w1))"

definition onFailure :: "CircuitBreaker \<Rightarrow> 'e world \<Rightarrow> CircuitBreaker \<times> 'e world" where
  "onFailure b w =
     (let b1 = b\<lparr>failures := failures b + 1\<rparr>
      in if failures b1 \<ge> failureThreshold (cfg b1)
         then (b1\<lparr>state := OPEN, openedAt := now w\<rparr>, emit (OnCircuitOpen (bname b1)) w)
         else (b1, w))"

subsection \<open>Backoff\<close>

text \<open>
  \<open>Math.pow(2, k)\<close> for an integer \<open>k \<ge> 0\<close>: the exact power below \<open>2^1024\<close>, \<open>Infinity\<close>
  from \<open>k = 1024\<close> on.
\<close>

definition jsPow2 :: "int \<Rightarrow> jsnum" where
  "jsPow2 k = (if 1024 \<le> k then PosInf else Num (2 ^ nat k))"

text \<open>
  \<open>b * x\<close> for an integer double \<open>b\<close> and a power of two or \<open>Infinity\<close> \<open>x\<close>: scaling a
  double by a power of two is exact until it overflows (at \<open>2^1024\<close>), and
  \<open>0 * Infinity\<close> is \<open>NaN\<close>.
\<close>

definition jsTimes :: "int \<Rightarrow> jsnum \<Rightarrow> jsnum" where
  "jsTimes b x =
     (case x of
        Num y \<Rightarrow>
          if 2 ^ 1024 \<le> \<bar>b * y\<bar> then (if 0 < b * y then PosInf else NegInf)
          else Num (b * y)
      | NaN \<Rightarrow> NaN
      | PosInf \<Rightarrow> (if b = 0 then NaN else if 0 < b then PosInf else NegInf)
      | NegInf \<Rightarrow> (if b = 0 then NaN else if 0 < b then NegInf else PosInf))"

text \<open>\<open>Math.min(x, m)\<close> for an integer \<open>m\<close>.\<close>

definition jsMin :: "jsnum \<Rightarrow> int \<Rightarrow> jsnum" where
  "jsMin x m =
     (case x of Num r \<Rightarrow> Num (min r m) | NaN \<Rightarrow> NaN | PosInf \<Rightarrow> Num m | NegInf \<Rightarrow> NegInf)"

text \<open>
  \<open>Math.floor(rnd * x)\<close> for a draw \<open>rnd\<close> in \<open>[0, 1)\<close>: the product of two finite
  doubles is the exact product rounded by \<open>fl\<close>; \<open>0 * Infinity\<close> is \<open>NaN\<close>.
\<close>

definition jsFloorTimes :: "(real \<Rightarrow> real) \<Rightarrow> real \<Rightarrow> jsnum \<Rightarrow> jsnum" where
  "jsFloorTimes fl rnd x =
     (case x of
        Num c \<Rightarrow> Num \<lfloor>fl (rnd * real_of_int c)\<rfloor>
      | NaN \<Rightarrow> NaN
      | PosInf \<Rightarrow> (if rnd = 0 then NaN else PosInf)
      | NegInf \<Rightarrow> (if rnd = 0 then NaN else NegInf))"

definition computeBackoffMs ::
  "(real \<Rightarrow> real) \<Rightarrow> BackoffStrategy option \<Rightarrow> int \<Rightarrow> real \<Rightarrow> jsnum" where
  "computeBackoffMs fl strategy attempt rnd =
     (case strategy of
        None \<Rightarrow> Num 0
      | Some (Fixed d) \<Rightarrow> Num d
      | Some (Exponential base maxd jit) \<Rightarrow>
          (let raw = jsTimes base (jsPow2 (max 0 (attempt - 1)));
               capped = jsMin raw maxd
           in if \<not> truthy jit then capped
              else jsFloorTimes fl rnd capped))"

subsection \<open>Timers\<close>

text \<open>
  \<open>setTimeout(f, ms)\<close> runs \<open>f\<close> after \<open>ms\<close> milliseconds when \<open>1 \<le> ms \<le> 2^31 - 1\<close>, and
  after 1 ms for any other delay (the rule of Node.js timers). \<open>timerDelayOf\<close> is the same
  for a computed number, and \<open>jsPositive x\<close> is \<open>x > 0\<close>.
\<close>

definition timerDelay :: "int \<Rightarrow> nat" where
  "timerDelay ms = (if ms < 1 \<or> 2147483647 < ms then 1 else nat ms)"

definition timerDelayOf :: "jsnum \<Rightarrow> nat" where
  "timerDelayOf x = (case x of Num ms \<Rightarrow> timerDelay ms | _ \<Rightarrow> 1)"

definition jsPositive :: "jsnum \<Rightarrow> bool" where
  "jsPositive x = (case x of Num n \<Rightarrow> 0 < n | PosInf \<Rightarrow> True | _ \<Rightarrow> False)"

subsection \<open>Timeout controller\<close>

text \<open>
  \<open>Promise.race\<close> of two promises created at the same instant: the one that settles
  first decides. When both settle in the same millisecond the first argument is taken to
  decide; no theorem below depends on that choice.
\<close>

definition race :: "('e, 'a) promise \<Rightarrow> ('e, 'a) promise \<Rightarrow> ('e, 'a) promise" where
  "race p q =
     (case p of
        Never \<Rightarrow> q
      | Settles d r \<Rightarrow>
          (case q of Never \<Rightarrow> p | Settles d' r' \<Rightarrow> if d \<le> d' then p else q))"

text \<open>
  \<open>withTimeout p timeoutMs controller\<close> returns the promise the attempt awaits and, as
  second component, the abort the timer performs: the controller and the delay after
  which its \<open>abort()\<close> runs. The source never clears the timer, so the abort is scheduled
  whoever decides the race.
\<close>

definition withTimeout ::
  "('e, 'a) promise \<Rightarrow> int option \<Rightarrow> nat option \<Rightarrow> ('e, 'a) promise \<times> (nat \<times> nat) option" where
  "withTimeout p tmo controller =
     (case tmo of
        None \<Rightarrow> (p, None)
      | Some t \<Rightarrow>
          if t = 0 then (p, None)
          else (race p (Settles (timerDelay t) (Inl (Error ''TimeoutError''))),
                map_option (\<lambda>c. (c, timerDelay t)) controller))"

definition scheduleAbort :: "(nat \<times> nat) option \<Rightarrow> 'e world \<Rightarrow> 'e world" where
  "scheduleAbort ab w =
     (case ab of
        None \<Rightarrow> w
      | Some (c, d) \<Rightarrow> w\<lparr>abortTimes := (abortTimes w)(c \<mapsto> now w + int d)\<rparr>)"

subsection \<open>Ambient cancellation context\<close>

text \<open>
  \<open>runWithActiveSignal signal f\<close>: save the slot, install \<open>signal\<close>, run \<open>f\<close>, and when
  the promise of \<open>f\<close> settles restore the slot (the \<open>finally\<close> block). A promise that never
  settles never resumes the \<open>await\<close>: the result is \<open>None\<close> and the slot is left as it is.
\<close>

definition runWithActiveSignal ::
  "nat option \<Rightarrow> ('e world \<Rightarrow> ('e, 'a) promise \<times> 'e world) \<Rightarrow> 'e world
     \<Rightarrow> ('e error + 'a) option \<times> 'e world" where
  "runWithActiveSignal signal f w =
     (let prev = activeSignal w;
          (p, w1) = f (w\<lparr>activeSignal := signal\<rparr>)
      in case p of
           Never \<Rightarrow> (None, w1)
         | Settles d r \<Rightarrow> (Some r, w1\<lparr>now := now w1 + int d, activeSignal := prev\<rparr>))"

subsection \<open>Attempt orchestrator\<close>

definition resolvedName :: "'e ResilienceConfig \<Rightarrow> ('e, 'a) env \<Rightarrow> string" where
  "resolvedName config e =
     (case name config of
        Some n \<Rightarrow> n
      | None \<Rightarrow> (case fnName e of Some n \<Rightarrow> n | None \<Rightarrow> ''anonymous''))"

definition retriesOf :: "'e ResilienceConfig \<Rightarrow> int" where
  "retriesOf config = (case retries config of Some n \<Rightarrow> n | None \<Rightarrow> 0)"

definition retryOnOf :: "'e ResilienceConfig \<Rightarrow> 'e error \<Rightarrow> bool" where
  "retryOnOf config = (case retryOn config of Some f \<Rightarrow> f | None \<Rightarrow> (\<lambda>_. True))"

text \<open>The work of one attempt: the body of the \<open>try\<close> block up to the \<open>await\<close>.\<close>

definition attemptWork ::
  "'e ResilienceConfig \<Rightarrow> ('e, 'a) env \<Rightarrow> int \<Rightarrow> 'e world \<Rightarrow> ('e error + 'a) option \<times> 'e world" where
  "attemptWork config e attempt w =
     (let (controller, w1) =
            (if truthy (useAbortSignal config)
             then (Some (nextController w), w\<lparr>nextController := Suc (nextController w)\<rparr>)
             else (None, w))
      in runWithActiveSignal controller
           (\<lambda>w2. let execPromise = fn e attempt;
                      w3 = emit (Invoke attempt (activeSignal w2)) w2;
                      (p, ab) = withTimeout execPromise (timeoutMs config) controller
                  in (p, scheduleAbort ab w3))
           w1)"

text \<open>
  One iteration of the \<open>for\<close> loop. \<open>Done r\<close>: the wrapped call is over, returning or
  throwing \<open>r\<close> (\<open>None\<close> when the attempt's promise never settles); \<open>Retry err\<close>: the loop
  goes on to the next attempt with \<open>lastErr = err\<close>.
\<close>

datatype ('e, 'a) step = Done "('e error + 'a) option" | Retry "'e error"

definition attemptBody ::
  "'e ResilienceConfig \<Rightarrow> ('e, 'a) env \<Rightarrow> int \<Rightarrow> CircuitBreaker option \<Rightarrow> 'e world
     \<Rightarrow> ('e, 'a) step \<times> CircuitBreaker option \<times> 'e world" where
  "attemptBody config e attempt breaker w =
     (let nm = resolvedName config e;
          w1 = emit (OnAttempt nm attempt) w;
          (ok, breaker1, w2) =
            (case breaker of
               None \<Rightarrow> (True, None, w1)
             | Some b \<Rightarrow> (let (r, b', w') = canAttempt b w1 in (r, Some b', w')))
      in if \<not> ok then (Done (Some (Inl (Error (''CircuitOpenError: '' @ nm)))), breaker1, w2)
         else
          (let start = now w2;
               (res, w3) = attemptWork config e attempt w2
           in case res of
                None \<Rightarrow> (Done None, breaker1, w3)
              | Some (Inr result) \<Rightarrow>
                  (let timeMs = now w3 - start;
                       (breaker2, w4) =
                         (case breaker1 of
                            None \<Rightarrow> (None, w3)
                          | Some b \<Rightarrow> (let (b', w') = onSuccess b w3 in (Some b', w')));
                       w5 = emit (OnSuccess nm attempt timeMs) w4
                   in (Done (Some (Inr result)), breaker2, w5))
              | Some (Inl err) \<Rightarrow>
                  (let timeMs = now w3 - start;
                       (breaker2, w4) =
                         (case breaker1 of
                            None \<Rightarrow> (None, w3)
                          | Some b \<Rightarrow> (let (b', w') = onFailure b w3 in (Some b', w')));
                       w5 = emit (OnFailure nm attempt timeMs err) w4;
                       shouldRetry = (attempt \<le> retriesOf config \<and> retryOnOf config err)
                   in if \<not> shouldRetry then (Done (Some (Inl err)), breaker2, w5)
                      else
                       (let waitMs = computeBackoffMs (roundToDouble e) (backoff config) attempt
                                       (random e attempt);
                            w6 = emit (OnRetry nm attempt waitMs err) w5;
                            w7 = (if jsPositive waitMs
                                  then w6\<lparr>now := now w6 + int (timerDelayOf waitMs)\<rparr>
                                  else w6)
                        in (Retry err, breaker2, w7)))))"

function attemptLoop ::
  "'e ResilienceConfig \<Rightarrow> ('e, 'a) env \<Rightarrow> int \<Rightarrow> 'e error option \<Rightarrow> CircuitBreaker option
     \<Rightarrow> 'e world \<Rightarrow> ('e error + 'a) option \<times> CircuitBreaker option \<times> 'e world" where
  "attemptLoop config e attempt lastErr breaker w =
     (if attempt \<le> retriesOf config + 1 then
        (case attemptBody config e attempt breaker w of
           (Done r, breaker', w') \<Rightarrow> (r, breaker', w')
         | (Retry err, breaker', w') \<Rightarrow>
             attemptLoop config e (attempt + 1) (Some err) breaker' w')
      else (Some (Inl (case lastErr of Some err \<Rightarrow> err | None \<Rightarrow> Error ''UnknownError'')),
            breaker, w))"
  by pat_completeness auto
termination
  by (relation "measure (\<lambda>(config, e, attempt, lastErr, breaker, w).
                  nat (retriesOf config + 2 - attempt))") auto

declare attemptLoop.simps [simp del]

text \<open>
  \<open>withResilience\<close> builds the closure: its only mutable part is the breaker, made once
  when a breaker configuration is given. \<open>call\<close> is one invocation of the closure.
\<close>

definition withResilience :: "('e, 'a) env \<Rightarrow> 'e ResilienceConfig \<Rightarrow> CircuitBreaker option" where
  "withResilience e config =
     map_option (\<lambda>c. newCircuitBreaker c (resolvedName config e)) (circuitBreaker config)"

definition call ::
  "'e ResilienceConfig \<Rightarrow> ('e, 'a) env \<Rightarrow> CircuitBreaker option \<Rightarrow> 'e world
     \<Rightarrow> ('e error + 'a) option \<times> CircuitBreaker option \<times> 'e world" where
  "call config e breaker w = attemptLoop config e 1 None breaker w"

subsection \<open>Calls that interleave\<close>









subsection \<open>Cancellable delay\<close>

definition aborted :: "'e world \<Rightarrow> nat \<Rightarrow> bool" where
  "aborted w s = (case abortTimes w s of None \<Rightarrow> False | Some t \<Rightarrow> t \<le> now w)"

text \<open>
  \<open>sleep ms signalArg\<close> called in world \<open>w\<close>: the fate of the promise it returns. An
  omitted signal defaults to the ambient slot as it is at the call.
\<close>

definition sleep :: "int \<Rightarrow> nat option \<Rightarrow> 'f world \<Rightarrow> ('e, unit) promise" where
  "sleep ms signalArg w =
     (let signal = (case signalArg of None \<Rightarrow> activeSignal w | Some s \<Rightarrow> Some s);
          timer = Settles (timerDelay ms) (Inr ())
      in case signal of
           None \<Rightarrow> timer
         | Some s \<Rightarrow>
             if aborted w s then Settles 0 (Inl (Error ''Aborted''))
             else (case abortTimes w s of
                     None \<Rightarrow> timer
                   | Some t \<Rightarrow> race timer (Settles (nat (t - now w)) (Inl (Error ''Aborted'')))))"

section \<open>Notions used in the statements\<close>

text \<open>
  The ambient slots found by the invocations of the underlying callable, in order; their
  number is the number of invocations. \<open>attemptsStarted\<close> counts the attempts begun
  (the \<open>onAttempt\<close> firings).
\<close>

fun invokeSlots :: "'e event list \<Rightarrow> nat option list" where
  "invokeSlots [] = []"
| "invokeSlots (Invoke i s # tr) = s # invokeSlots tr"
| "invokeSlots (ev # tr) = invokeSlots tr"

fun isOnAttempt :: "'e event \<Rightarrow> bool" where
  "isOnAttempt (OnAttempt n i) = True"
| "isOnAttempt ev = False"

definition invocations :: "'e event list \<Rightarrow> nat" where
  "invocations tr = length (invokeSlots tr)"

definition attemptsStarted :: "'e event list \<Rightarrow> nat" where
  "attemptsStarted tr = length (filter isOnAttempt tr)"

text \<open>Whether the breaker, if there is one, lets an attempt begun in world \<open>w\<close> proceed.\<close>

definition permitted :: "CircuitBreaker option \<Rightarrow> 'e world \<Rightarrow> bool" where
  "permitted breaker w = (case breaker of None \<Rightarrow> True | Some b \<Rightarrow> fst (canAttempt b w))"

text \<open>
  The promise attempt \<open>i\<close> awaits (the callable's promise raced against the timer), and
  the signal attempt's work installs in the ambient slot.
\<close>

definition attemptPromise :: "'e ResilienceConfig \<Rightarrow> ('e, 'a) env \<Rightarrow> int \<Rightarrow> ('e, 'a) promise" where
  "attemptPromise config e i = fst (withTimeout (fn e i) (timeoutMs config) None)"

definition attemptSignal :: "'e ResilienceConfig \<Rightarrow> 'e world \<Rightarrow> nat option" where
  "attemptSignal config w =
     (if truthy (useAbortSignal config) then Some (nextController w) else None)"

text \<open>
  The breaker's reachable states: any sequence of its three methods, with the clock set
  to any value in between.
\<close>

datatype breakerOp = DoCanAttempt | DoOnSuccess | DoOnFailure | SetClock int

fun applyOp :: "CircuitBreaker \<times> 'e world \<Rightarrow> breakerOp \<Rightarrow> CircuitBreaker \<times> 'e world" where
  "applyOp (b, w) DoCanAttempt = snd (canAttempt b w)"
| "applyOp (b, w) DoOnSuccess = onSuccess b w"
| "applyOp (b, w) DoOnFailure = onFailure b w"
| "applyOp (b, w) (SetClock t) = (b, w\<lparr>now := t\<rparr>)"

definition runOps :: "breakerOp list \<Rightarrow> CircuitBreaker \<times> 'e world \<Rightarrow> CircuitBreaker \<times> 'e world" where
  "runOps ops s = foldl applyOp s ops"

definition breakerInv :: "CircuitBreaker \<Rightarrow> bool" where
  "breakerInv b = (state b = CLOSED \<or> failureThreshold (cfg b) \<le> failures b)"

text \<open>A world at rest, for the concrete scenarios below.\<close>

definition world0 :: "'e world" where
  "world0 = \<lparr>now = 0, activeSignal = None, nextController = 0,
             abortTimes = (\<lambda>_. None), trace = []\<rparr>"


text \<open>The error a promise rejects with, and the value it fulfils with, if any.\<close>

definition failure :: "('e, 'a) promise \<Rightarrow> 'e error option" where
  "failure p = (case p of Settles d (Inl err) \<Rightarrow> Some err | _ \<Rightarrow> None)"



text \<open>
  What an attempt that is let through adds to the world, what the head of an iteration
  (the \<open>onAttempt\<close> hook and the breaker's gate) leaves unchanged, and the slots found by
  \<open>m\<close> successive invocations when the next fresh controller is \<open>c\<close>.
\<close>

definition attemptRan :: "'e ResilienceConfig \<Rightarrow> 'e world \<Rightarrow> 'e world \<Rightarrow> bool" where
  "attemptRan config w w' =
     (invokeSlots (trace w') = invokeSlots (trace w) @ [attemptSignal config w]
      \<and> nextController w' =
          (if truthy (useAbortSignal config) then Suc (nextController w) else nextController w)
      \<and> attemptsStarted (trace w') = Suc (attemptsStarted (trace w)))"

definition gated :: "'e world \<Rightarrow> 'e world \<Rightarrow> bool" where
  "gated w w1 =
     (now w1 = now w \<and> activeSignal w1 = activeSignal w \<and> nextController w1 = nextController w
      \<and> invokeSlots (trace w1) = invokeSlots (trace w)
      \<and> attemptsStarted (trace w1) = Suc (attemptsStarted (trace w)))"

definition slotsFrom :: "'e ResilienceConfig \<Rightarrow> nat \<Rightarrow> nat \<Rightarrow> nat option list" where
  "slotsFrom config c m =
     map (\<lambda>j. if truthy (useAbortSignal config) then Some (c + j) else None) [0..<m]"

subsection \<open>Concrete scenarios\<close>

text \<open>
  A callable that always throws after 5 ms, one that throws once and then returns 42, one
  that returns 42; configurations built on the defaults; an OPEN breaker; a world whose
  ambient slot is taken.
\<close>

definition boomEnv :: "(string, nat) env" where
  "boomEnv = \<lparr>fn = (\<lambda>i. Settles 5 (Inl (Thrown ''boom''))), fnName = Some ''f'', random = (\<lambda>i. 0),
      roundToDouble = id\<rparr>"


definition defaults :: "string ResilienceConfig" where
  "defaults = \<lparr>name = None, timeoutMs = None, retries = None, backoff = None, retryOn = None,
               circuitBreaker = None, useAbortSignal = None\<rparr>"

definition retryTimeoutsOnly :: "string ResilienceConfig" where
  "retryTimeoutsOnly = defaults\<lparr>retries := Some 1, retryOn := Some (\<lambda>err. err = Error ''TimeoutError'')\<rparr>"

definition tripConfig :: "string ResilienceConfig" where
  "tripConfig = defaults\<lparr>retries := Some 1,
                  circuitBreaker := Some \<lparr>failureThreshold = 1, resetTimeoutMs = 1000\<rparr>\<rparr>"


definition busyWorld :: "string world" where
  "busyWorld = world0\<lparr>activeSignal := Some 7, nextController := 8\<rparr>"

definition okEnv :: "(string, nat) env" where
  "okEnv = \<lparr>fn = (\<lambda>i. Settles 5 (Inr 42)), fnName = Some ''f'', random = (\<lambda>i. 0),
      roundToDouble = id\<rparr>"


definition threeStrikes :: "string ResilienceConfig" where
  "threeStrikes = defaults\<lparr>circuitBreaker := Some \<lparr>failureThreshold = 3, resetTimeoutMs = 100\<rparr>\<rparr>"

definition struck :: CircuitBreaker where
  "struck = \<lparr>state = OPEN, failures = 3, openedAt = 5,
            cfg = \<lparr>failureThreshold = 3, resetTimeoutMs = 100\<rparr>, bname = ''f''\<rparr>"







section \<open>Backoff calculator\<close>

lemma floor_jitter:
  fixes x :: real and c :: int
  assumes "0 \<le> x" "x < real_of_int c"
  shows "0 \<le> \<lfloor>x\<rfloor> \<and> \<lfloor>x\<rfloor> < c"
  using assms by (simp add: floor_less_iff)

lemma exponent_clamped: "nat (max 0 (attempt - 1)) = nat (max 1 attempt - 1)"
  by simp

text \<open>
  The capped delay (the source's \<open>capped\<close>) is what the calculator returns without
  jitter: finite while \<open>2^(attempt - 1)\<close> and its product with the base are; from attempt
  1025 on, or when the product overflows, \<open>maxDelayMs\<close> for a positive base, \<open>NaN\<close> for
  base 0 and \<open>-Infinity\<close> for a negative base.
\<close>

lemma capped_finite:
  assumes "attempt \<le> 1024" "\<bar>base\<bar> * 2 ^ nat (max 1 attempt - 1) < 2 ^ 1024"
  shows "jsMin (jsTimes base (jsPow2 (max 0 (attempt - 1)))) maxd
           = Num (min (base * 2 ^ nat (max 1 attempt - 1)) maxd)"
proof -
  have "\<not> 1024 \<le> max 0 (attempt - 1)" using assms(1) by simp
  then have p: "jsPow2 (max 0 (attempt - 1)) = Num (2 ^ nat (max 1 attempt - 1))"
    unfolding jsPow2_def exponent_clamped by simp
  have "\<bar>base * 2 ^ nat (max 1 attempt - 1)\<bar> = \<bar>base\<bar> * 2 ^ nat (max 1 attempt - 1)"
    by (simp add: abs_mult)
  then have "\<not> 2 ^ 1024 \<le> \<bar>base * 2 ^ nat (max 1 attempt - 1)\<bar>"
    using assms(2) by simp
  then show ?thesis
    unfolding p by (simp add: jsTimes_def jsMin_def)
qed

lemma capped_overflow:
  assumes "1025 \<le> attempt \<or> 2 ^ 1024 \<le> \<bar>base\<bar> * 2 ^ nat (max 1 attempt - 1)"
  shows "jsMin (jsTimes base (jsPow2 (max 0 (attempt - 1)))) maxd
           = (if base = 0 then NaN else if 0 < base then Num maxd else NegInf)"
proof (cases "1025 \<le> attempt")
  case True
  then have "jsPow2 (max 0 (attempt - 1)) = PosInf" by (simp add: jsPow2_def)
  then show ?thesis by (simp add: jsTimes_def jsMin_def)
next
  case False
  then have o: "2 ^ 1024 \<le> \<bar>base\<bar> * 2 ^ nat (max 1 attempt - 1)" using assms by simp
  then have nz: "base \<noteq> 0" by auto
  from False have "\<not> 1024 \<le> max 0 (attempt - 1)" by simp
  then have p: "jsPow2 (max 0 (attempt - 1)) = Num (2 ^ nat (max 1 attempt - 1))"
    unfolding jsPow2_def exponent_clamped by simp
  have a: "\<bar>base * 2 ^ nat (max 1 attempt - 1)\<bar> = \<bar>base\<bar> * 2 ^ nat (max 1 attempt - 1)"
    by (simp add: abs_mult)
  have s: "0 < base * 2 ^ nat (max 1 attempt - 1) \<longleftrightarrow> 0 < base"
    by (simp add: zero_less_mult_iff)
  show ?thesis
    unfolding p using o nz by (simp add: jsTimes_def jsMin_def a s)
qed

text \<open>
  C5 fails as stated in two places. With jitter and a capped delay of 0
  (\<open>Exponential{baseDelayMs: 0, maxDelayMs: 400, jitter: true}\<close>) the interval
  \<open>[0, cappedDelay)\<close> is empty and the code returns \<open>floor(random * 0) = 0\<close>. Without
  jitter, at attempt 1025 the power \<open>2^1024\<close> is \<open>Infinity\<close>, and for base 0 the code
  returns \<open>0 * Infinity = NaN\<close>, not \<open>0 * 2^1024\<close> clamped to 400.
\<close>

theorem computeBackoffMs_jitter_counterexample:
  "computeBackoffMs id (Some (Exponential 0 400 (Some True))) 1 (1 / 2) = Num 0
   \<and> min (0 * 2 ^ nat (1 - 1)) (400 :: int) = 0
   \<and> \<not> ((0 :: int) \<le> 0 \<and> (0 :: int) < min (0 * 2 ^ nat (1 - 1)) 400)
   \<and> computeBackoffMs id (Some (Exponential 0 400 None)) 1025 (1 / 2) = NaN
   \<and> computeBackoffMs id (Some (Exponential 0 400 None)) 1025 (1 / 2)
       \<noteq> Num (min (0 * 2 ^ nat (1025 - 1)) 400)"
  by (simp add: computeBackoffMs_def truthy_def jsPow2_def jsTimes_def jsMin_def
                jsFloorTimes_def)

text \<open>
  C5 (amended). For every attempt index the backoff calculator returns 0 when no strategy
  is configured and the constant \<open>delayMs\<close> for \<open>Fixed\<close>. For \<open>Exponential\<close> without
  jitter it returns \<open>baseDelayMs * 2^(attempt - 1)\<close> clamped to \<open>maxDelayMs\<close>, the attempt
  index being raised to 1 when it is 0 or negative, as long as the attempt is at most
  1024 and the product is below \<open>2^1024\<close>, so that \<open>Exponential{50, 400}\<close> yields
  50, 100, 200, 400, 400 for attempts 1 to 5; from attempt 1025 on, or when the product
  overflows, it returns \<open>maxDelayMs\<close> for a positive base, \<open>NaN\<close> for base 0 and
  \<open>-Infinity\<close> for a negative base. With jitter it returns
  \<open>floor(random * cappedDelay)\<close>, \<open>cappedDelay\<close> being the value returned without
  jitter and the product being rounded to a double. For a draw in \<open>[0, 1)\<close>, which as a
  double is at most \<open>1 - 2^-53\<close>, this is an integer in \<open>[0, cappedDelay)\<close> when the
  capped delay is finite and positive, and 0 when the capped delay is 0. What is used of
  the rounding is that it is monotone, leaves 0 as it is, and takes
  \<open>cappedDelay * (1 - 2^-53)\<close> below \<open>cappedDelay\<close>.
\<close>

theorem computeBackoffMs_spec:
  "computeBackoffMs fl None attempt rnd = Num 0
   \<and> computeBackoffMs fl (Some (Fixed d)) attempt rnd = Num d
   \<and> (\<not> truthy jit \<and> attempt \<le> 1024 \<and> \<bar>base\<bar> * 2 ^ nat (max 1 attempt - 1) < 2 ^ 1024 \<longrightarrow>
        computeBackoffMs fl (Some (Exponential base maxd jit)) attempt rnd
          = Num (min (base * 2 ^ nat (max 1 attempt - 1)) maxd))
   \<and> map (\<lambda>a. computeBackoffMs fl (Some (Exponential 50 400 None)) a rnd) [1, 2, 3, 4, 5]
        = [Num 50, Num 100, Num 200, Num 400, Num 400]
   \<and> (\<not> truthy jit
        \<and> (1025 \<le> attempt \<or> 2 ^ 1024 \<le> \<bar>base\<bar> * 2 ^ nat (max 1 attempt - 1)) \<longrightarrow>
        computeBackoffMs fl (Some (Exponential base maxd jit)) attempt rnd
          = (if base = 0 then NaN else if 0 < base then Num maxd else NegInf))
   \<and> (truthy jit \<longrightarrow>
        computeBackoffMs fl (Some (Exponential base maxd jit)) attempt rnd
          = jsFloorTimes fl rnd
              (computeBackoffMs fl (Some (Exponential base maxd None)) attempt rnd))
   \<and> (truthy jit \<and> attempt \<le> 1024 \<and> \<bar>base\<bar> * 2 ^ nat (max 1 attempt - 1) < 2 ^ 1024 \<longrightarrow>
        computeBackoffMs fl (Some (Exponential base maxd jit)) attempt rnd
          = Num \<lfloor>fl (rnd * real_of_int (min (base * 2 ^ nat (max 1 attempt - 1)) maxd))\<rfloor>)
   \<and> (truthy jit \<and> attempt \<le> 1024 \<and> \<bar>base\<bar> * 2 ^ nat (max 1 attempt - 1) < 2 ^ 1024
        \<and> 0 < min (base * 2 ^ nat (max 1 attempt - 1)) maxd
        \<and> 0 \<le> rnd \<and> rnd \<le> 1 - 1 / 2 ^ 53
        \<and> (\<forall>x y. x \<le> y \<longrightarrow> fl x \<le> fl y) \<and> fl 0 = 0
        \<and> fl (real_of_int (min (base * 2 ^ nat (max 1 attempt - 1)) maxd) * (1 - 1 / 2 ^ 53))
            < real_of_int (min (base * 2 ^ nat (max 1 attempt - 1)) maxd) \<longrightarrow>
        (\<exists>n. computeBackoffMs fl (Some (Exponential base maxd jit)) attempt rnd = Num n
              \<and> 0 \<le> n \<and> n < min (base * 2 ^ nat (max 1 attempt - 1)) maxd))
   \<and> (truthy jit \<and> attempt \<le> 1024 \<and> \<bar>base\<bar> * 2 ^ nat (max 1 attempt - 1) < 2 ^ 1024
        \<and> min (base * 2 ^ nat (max 1 attempt - 1)) maxd = 0 \<and> fl 0 = 0 \<longrightarrow>
        computeBackoffMs fl (Some (Exponential base maxd jit)) attempt rnd = Num 0)"
proof -
  let ?c = "min (base * 2 ^ nat (max 1 attempt - 1)) maxd"
  let ?fin = "attempt \<le> 1024 \<and> \<bar>base\<bar> * 2 ^ nat (max 1 attempt - 1) < 2 ^ 1024"
  have 1: "computeBackoffMs fl None attempt rnd = Num 0"
    by (simp add: computeBackoffMs_def)
  have 2: "computeBackoffMs fl (Some (Fixed d)) attempt rnd = Num d"
    by (simp add: computeBackoffMs_def)
  have plain: "\<not> truthy j \<Longrightarrow>
        computeBackoffMs fl (Some (Exponential base maxd j)) attempt rnd
          = jsMin (jsTimes base (jsPow2 (max 0 (attempt - 1)))) maxd" for j
    by (simp add: computeBackoffMs_def Let_def)
  have jitter: "truthy jit \<Longrightarrow>
        computeBackoffMs fl (Some (Exponential base maxd jit)) attempt rnd
          = jsFloorTimes fl rnd (jsMin (jsTimes base (jsPow2 (max 0 (attempt - 1)))) maxd)"
    by (simp add: computeBackoffMs_def Let_def)
  have 3: "\<not> truthy jit \<and> ?fin \<longrightarrow>
        computeBackoffMs fl (Some (Exponential base maxd jit)) attempt rnd = Num ?c"
    using plain[of jit] capped_finite[of attempt base maxd] by simp
  have 4: "map (\<lambda>a. computeBackoffMs fl (Some (Exponential 50 400 None)) a rnd) [1, 2, 3, 4, 5]
        = [Num 50, Num 100, Num 200, Num 400, Num 400]"
    by (simp add: computeBackoffMs_def truthy_def jsPow2_def jsTimes_def jsMin_def)
  have 5: "\<not> truthy jit
        \<and> (1025 \<le> attempt \<or> 2 ^ 1024 \<le> \<bar>base\<bar> * 2 ^ nat (max 1 attempt - 1)) \<longrightarrow>
        computeBackoffMs fl (Some (Exponential base maxd jit)) attempt rnd
          = (if base = 0 then NaN else if 0 < base then Num maxd else NegInf)"
    using plain[of jit] capped_overflow[of attempt base maxd] by simp
  have 6: "truthy jit \<longrightarrow>
        computeBackoffMs fl (Some (Exponential base maxd jit)) attempt rnd
          = jsFloorTimes fl rnd
              (computeBackoffMs fl (Some (Exponential base maxd None)) attempt rnd)"
    using jitter plain[of None] by (simp add: truthy_def)
  have 7: "truthy jit \<and> ?fin \<longrightarrow>
        computeBackoffMs fl (Some (Exponential base maxd jit)) attempt rnd
          = Num \<lfloor>fl (rnd * real_of_int ?c)\<rfloor>"
    using jitter capped_finite[of attempt base maxd] by (simp add: jsFloorTimes_def)
  have 8: "truthy jit \<and> ?fin \<and> 0 < ?c
        \<and> 0 \<le> rnd \<and> rnd \<le> 1 - 1 / 2 ^ 53
        \<and> (\<forall>x y. x \<le> y \<longrightarrow> fl x \<le> fl y) \<and> fl 0 = 0
        \<and> fl (real_of_int ?c * (1 - 1 / 2 ^ 53)) < real_of_int ?c \<longrightarrow>
        (\<exists>n. computeBackoffMs fl (Some (Exponential base maxd jit)) attempt rnd = Num n
              \<and> 0 \<le> n \<and> n < ?c)"
  proof (intro impI)
    assume a: "truthy jit \<and> ?fin \<and> 0 < ?c
        \<and> 0 \<le> rnd \<and> rnd \<le> 1 - 1 / 2 ^ 53
        \<and> (\<forall>x y. x \<le> y \<longrightarrow> fl x \<le> fl y) \<and> fl 0 = 0
        \<and> fl (real_of_int ?c * (1 - 1 / 2 ^ 53)) < real_of_int ?c"
    then have mono: "\<And>x y. x \<le> y \<Longrightarrow> fl x \<le> fl y" by blast
    have "0 \<le> rnd * real_of_int ?c" using a by simp
    from mono[OF this] have lo: "0 \<le> fl (rnd * real_of_int ?c)" using a by simp
    have "rnd * real_of_int ?c \<le> (1 - 1 / 2 ^ 53) * real_of_int ?c"
      using a by (intro mult_right_mono) simp_all
    then have "rnd * real_of_int ?c \<le> real_of_int ?c * (1 - 1 / 2 ^ 53)"
      by (simp add: mult.commute)
    from mono[OF this] have hi: "fl (rnd * real_of_int ?c) < real_of_int ?c"
      using a by linarith
    from floor_jitter[OF lo hi] 7 a
    show "\<exists>n. computeBackoffMs fl (Some (Exponential base maxd jit)) attempt rnd = Num n
              \<and> 0 \<le> n \<and> n < ?c" by blast
  qed
  have 9: "truthy jit \<and> ?fin \<and> ?c = 0 \<and> fl 0 = 0 \<longrightarrow>
        computeBackoffMs fl (Some (Exponential base maxd jit)) attempt rnd = Num 0"
    using 7 by simp
  from 1 2 3 4 5 6 7 8 9 show ?thesis by blast
qed

theorem computeBackoffMs_spec_witness:
  "computeBackoffMs id (Some (Exponential 50 400 (Some False))) (- 2) (1 / 4) = Num 50
   \<and> computeBackoffMs id (Some (Exponential 50 400 (Some True))) 3 (1 / 4) = Num 50
   \<and> (\<exists>n. computeBackoffMs id (Some (Exponential 50 400 (Some True))) 3 (1 / 4) = Num n
          \<and> 0 \<le> n \<and> n < 200)
   \<and> computeBackoffMs id (Some (Exponential 0 400 (Some True))) 3 (1 / 4) = Num 0
   \<and> computeBackoffMs id (Some (Exponential 50 400 None)) 1025 (1 / 4) = Num 400
   \<and> computeBackoffMs id (Some (Exponential (- 50) 400 None)) 1025 (1 / 4) = NegInf"
proof -
  have small: "\<bar>50 :: int\<bar> * 2 ^ nat (max 1 (- 2) - 1) < 2 ^ 1024"
    "\<bar>50 :: int\<bar> * 2 ^ nat (max 1 3 - 1) < 2 ^ 1024"
    "\<bar>0 :: int\<bar> * 2 ^ nat (max 1 3 - 1) < 2 ^ 1024"
    by simp_all
  have c: "min (50 * 2 ^ nat (max 1 (- 2) - 1)) (400 :: int) = 50"
    "min (50 * 2 ^ nat (max 1 3 - 1)) (400 :: int) = 200"
    "min (0 * 2 ^ nat (max 1 3 - 1)) (400 :: int) = 0"
    by simp_all
  have t: "\<not> truthy (Some False)" "truthy (Some True)" "\<not> truthy None"
    by (simp_all add: truthy_def)
  note a = computeBackoffMs_spec [where fl = id and attempt = "- 2" and rnd = "1 / 4"
      and jit = "Some False" and base = 50 and maxd = 400]
  note b = computeBackoffMs_spec [where fl = id and attempt = 3 and rnd = "1 / 4"
      and jit = "Some True" and base = 50 and maxd = 400]
  note z = computeBackoffMs_spec [where fl = id and attempt = 3 and rnd = "1 / 4"
      and jit = "Some True" and base = 0 and maxd = 400]
  note o = computeBackoffMs_spec [where fl = id and attempt = 1025 and rnd = "1 / 4"
      and jit = None and base = 50 and maxd = 400]
  note n = computeBackoffMs_spec [where fl = id and attempt = 1025 and rnd = "1 / 4"
      and jit = None and base = "- 50" and maxd = 400]
  have le: "(- 2 :: int) \<le> 1024" "(3 :: int) \<le> 1024" "(1025 :: int) \<le> 1025" by simp_all
  have draw: "(0 :: real) \<le> 1 / 4" "(1 / 4 :: real) \<le> 1 - 1 / 2 ^ 53" by simp_all
  have rounding: "\<forall>x y :: real. x \<le> y \<longrightarrow> id x \<le> id y" "id (0 :: real) = 0"
    "id (real_of_int (min (50 * 2 ^ nat (max 1 3 - 1)) 400) * (1 - 1 / 2 ^ 53))
       < real_of_int (min (50 * 2 ^ nat (max 1 3 - 1)) 400)"
    by simp_all
  have pos: "0 < min (50 * 2 ^ nat (max 1 3 - 1)) (400 :: int)" by simp
  have "computeBackoffMs id (Some (Exponential 50 400 (Some False))) (- 2) (1 / 4)
          = Num (min (50 * 2 ^ nat (max 1 (- 2) - 1)) 400)"
    using a le(1) small(1) t(1) by blast
  then have 1: "computeBackoffMs id (Some (Exponential 50 400 (Some False))) (- 2) (1 / 4)
                  = Num 50"
    by simp
  have "computeBackoffMs id (Some (Exponential 50 400 (Some True))) 3 (1 / 4)
          = Num \<lfloor>id (1 / 4 * real_of_int (min (50 * 2 ^ nat (max 1 3 - 1)) 400))\<rfloor>"
    using b le(2) small(2) t(2) by blast
  then have 2: "computeBackoffMs id (Some (Exponential 50 400 (Some True))) 3 (1 / 4) = Num 50"
    by simp
  have "\<exists>n. computeBackoffMs id (Some (Exponential 50 400 (Some True))) 3 (1 / 4) = Num n
          \<and> 0 \<le> n \<and> n < min (50 * 2 ^ nat (max 1 3 - 1)) 400"
    using b le(2) small(2) t(2) pos draw rounding by blast
  then have 3: "\<exists>n. computeBackoffMs id (Some (Exponential 50 400 (Some True))) 3 (1 / 4) = Num n
          \<and> 0 \<le> n \<and> n < 200"
    by simp
  have 4: "computeBackoffMs id (Some (Exponential 0 400 (Some True))) 3 (1 / 4) = Num 0"
    using z le(2) small(3) t(2) c(3) rounding(2) by blast
  have "computeBackoffMs id (Some (Exponential 50 400 None)) 1025 (1 / 4)
          = (if (50 :: int) = 0 then NaN else if (0 :: int) < 50 then Num 400 else NegInf)"
    using o le(3) t(3) by blast
  then have 5: "computeBackoffMs id (Some (Exponential 50 400 None)) 1025 (1 / 4) = Num 400"
    by simp
  have "computeBackoffMs id (Some (Exponential (- 50) 400 None)) 1025 (1 / 4)
          = (if (- 50 :: int) = 0 then NaN else if (0 :: int) < - 50 then Num 400 else NegInf)"
    using n le(3) t(3) by blast
  then have 6: "computeBackoffMs id (Some (Exponential (- 50) 400 None)) 1025 (1 / 4) = NegInf"
    by simp
  from 1 2 3 4 5 6 show ?thesis by blast
qed

section \<open>Circuit breaker\<close>

lemma breakerInv_applyOp: "breakerInv (fst s) \<Longrightarrow> breakerInv (fst (applyOp s op))"
  by (cases s; cases op)
     (auto simp: breakerInv_def canAttempt_def onSuccess_def onFailure_def Let_def)

lemma cfg_applyOp: "cfg (fst (applyOp s op)) = cfg (fst s)"
  by (cases s; cases op)
     (auto simp: canAttempt_def onSuccess_def onFailure_def Let_def)

lemma runOps_inv: "breakerInv (fst s) \<Longrightarrow> breakerInv (fst (runOps ops s))"
  unfolding runOps_def by (induction ops arbitrary: s) (auto simp: breakerInv_applyOp)

lemma runOps_cfg: "cfg (fst (runOps ops s)) = cfg (fst s)"
  unfolding runOps_def by (induction ops arbitrary: s) (auto simp: cfg_applyOp)

text \<open>
  C10. In every state the breaker reaches from its initial state (CLOSED, no failures) by
  \<open>canAttempt\<close>, \<open>onSuccess\<close> and \<open>onFailure\<close>, an OPEN or HALF_OPEN breaker has at
  least \<open>failureThreshold\<close> failures; hence an \<open>onFailure\<close> received while HALF_OPEN
  re-opens the circuit. (The bound \<open>failureThreshold \<ge> 1\<close> is not needed.)
\<close>

theorem breaker_open_invariant:
  assumes "runOps ops (newCircuitBreaker c n, w) = (b, w')"
  shows "(state b = OPEN \<or> state b = HALF_OPEN \<longrightarrow> failureThreshold c \<le> failures b)
       \<and> (state b = HALF_OPEN \<longrightarrow> state (fst (onFailure b w'')) = OPEN)"
proof -
  have "breakerInv (fst (runOps ops (newCircuitBreaker c n, w)))"
    by (rule runOps_inv) (simp add: breakerInv_def newCircuitBreaker_def)
  moreover have "cfg (fst (runOps ops (newCircuitBreaker c n, w))) = c"
    by (simp add: runOps_cfg newCircuitBreaker_def)
  ultimately have inv: "breakerInv b" and c: "cfg b = c"
    using assms by simp_all
  show ?thesis
    using inv c by (auto simp: breakerInv_def onFailure_def Let_def)
qed

theorem breaker_open_invariant_witness:
  "state (fst (runOps [DoOnFailure, DoOnFailure, SetClock 7, DoOnFailure, SetClock 100, DoCanAttempt]
          (newCircuitBreaker \<lparr>failureThreshold = 3, resetTimeoutMs = 50\<rparr> ''f'',
           world0 :: unit world))) = HALF_OPEN
   \<and> 3 \<le> failures (fst (runOps
          [DoOnFailure, DoOnFailure, SetClock 7, DoOnFailure, SetClock 100, DoCanAttempt]
          (newCircuitBreaker \<lparr>failureThreshold = 3, resetTimeoutMs = 50\<rparr> ''f'',
           world0 :: unit world)))
   \<and> state (fst (onFailure (fst (runOps
          [DoOnFailure, DoOnFailure, SetClock 7, DoOnFailure, SetClock 100, DoCanAttempt]
          (newCircuitBreaker \<lparr>failureThreshold = 3, resetTimeoutMs = 50\<rparr> ''f'',
           world0 :: unit world)))
        (world0 :: unit world))) = OPEN"
proof -
  have s: "state (fst (runOps
          [DoOnFailure, DoOnFailure, SetClock 7, DoOnFailure, SetClock 100, DoCanAttempt]
          (newCircuitBreaker \<lparr>failureThreshold = 3, resetTimeoutMs = 50\<rparr> ''f'',
           world0 :: unit world))) = HALF_OPEN"
    by (simp add: runOps_def newCircuitBreaker_def onFailure_def canAttempt_def emit_def
                  world0_def)
  show ?thesis
    using s breaker_open_invariant [OF surjective_pairing,
              where c = "\<lparr>failureThreshold = 3, resetTimeoutMs = 50\<rparr>"]
    by fastforce
qed

section \<open>Timeout controller\<close>

lemma withTimeout_fst: "fst (withTimeout p t c) = fst (withTimeout p t None)"
  by (simp add: withTimeout_def split: option.splits)




section \<open>Cancellable delay\<close>

text \<open>
  C8 fails as stated for a duration above \<open>2^31 - 1\<close> ms (about 24.8 days): the timer of
  \<open>sleep(2147483648)\<close> fires after 1 ms, so the promise resolves long before the duration.
\<close>

theorem sleep_long_duration_counterexample:
  "(sleep 2147483648 None (world0 :: string world) :: (string, unit) promise)
     = Settles 1 (Inr ())
   \<and> (1 :: nat) < nat 2147483648
   \<and> (sleep 2147483648 None (world0 :: string world) :: (string, unit) promise)
     \<noteq> Settles (nat 2147483648) (Inr ())"
  by (simp add: sleep_def world0_def timerDelay_def)

text \<open>
  C8 (amended). \<open>sleep ms signal\<close>, the signal defaulting to the ambient slot, sets a
  timer that fires after \<open>ms\<close> milliseconds when \<open>1 \<le> ms \<le> 2^31 - 1\<close> and after 1 ms for
  any other duration. With no signal, or a signal that never triggers or triggers only
  after the timer, the promise resolves when the timer fires; with a signal already
  triggered at the call it rejects at once with the cancellation error (the source's
  \<open>Error("Aborted")\<close>); with a signal that triggers before the timer fires it rejects
  with that error at the instant the signal triggers.
\<close>

theorem sleep_spec:
  fixes w :: "'f world"
  shows
  "(signalArg = None \<and> activeSignal w = None \<longrightarrow>
       (sleep ms signalArg w :: ('e, unit) promise) = Settles (timerDelay ms) (Inr ()))
   \<and> ((signalArg = Some s \<or> (signalArg = None \<and> activeSignal w = Some s)) \<longrightarrow>
       (abortTimes w s = None \<longrightarrow>
          (sleep ms signalArg w :: ('e, unit) promise) = Settles (timerDelay ms) (Inr ()))
       \<and> (aborted w s \<longrightarrow>
          (sleep ms signalArg w :: ('e, unit) promise) = Settles 0 (Inl (Error ''Aborted'')))
       \<and> (abortTimes w s = Some t \<and> now w < t \<and> nat (t - now w) < timerDelay ms \<longrightarrow>
          (sleep ms signalArg w :: ('e, unit) promise)
            = Settles (nat (t - now w)) (Inl (Error ''Aborted'')))
       \<and> (abortTimes w s = Some t \<and> now w < t \<and> timerDelay ms < nat (t - now w) \<longrightarrow>
          (sleep ms signalArg w :: ('e, unit) promise) = Settles (timerDelay ms) (Inr ())))
   \<and> (1 \<le> ms \<and> ms \<le> 2147483647 \<longrightarrow> timerDelay ms = nat ms)
   \<and> (ms < 1 \<or> 2147483647 < ms \<longrightarrow> timerDelay ms = 1)"
proof -
  have none: "signalArg = None \<and> activeSignal w = None \<longrightarrow>
       (sleep ms signalArg w :: ('e, unit) promise) = Settles (timerDelay ms) (Inr ())"
    by (simp add: sleep_def)
  have some: "(sleep ms signalArg w :: ('e, unit) promise) =
       (if aborted w s then Settles 0 (Inl (Error ''Aborted''))
        else case abortTimes w s of
               None \<Rightarrow> Settles (timerDelay ms) (Inr ())
             | Some t \<Rightarrow> race (Settles (timerDelay ms) (Inr ()))
                              (Settles (nat (t - now w)) (Inl (Error ''Aborted''))))"
    if "signalArg = Some s \<or> (signalArg = None \<and> activeSignal w = Some s)"
    using that by (auto simp: sleep_def Let_def)
  have never: "abortTimes w s = None \<longrightarrow> \<not> aborted w s"
    by (simp add: aborted_def)
  have pending: "abortTimes w s = Some t \<and> now w < t \<longrightarrow> \<not> aborted w s"
    by (auto simp: aborted_def)
  have range: "1 \<le> ms \<and> ms \<le> 2147483647 \<longrightarrow> timerDelay ms = nat ms"
    "ms < 1 \<or> 2147483647 < ms \<longrightarrow> timerDelay ms = 1"
    by (auto simp: timerDelay_def)
  show ?thesis
    using none some never pending range by (auto simp: race_def)
qed

theorem sleep_spec_witness:
  "(sleep 100 None (world0 :: string world) :: (string, unit) promise) = Settles 100 (Inr ())
   \<and> (sleep 100 None (busyWorld\<lparr>abortTimes := [7 \<mapsto> 40]\<rparr>) :: (string, unit) promise)
       = Settles 40 (Inl (Error ''Aborted''))
   \<and> (sleep 100 (Some 7) (busyWorld\<lparr>abortTimes := [7 \<mapsto> 40], now := 50\<rparr>)
        :: (string, unit) promise) = Settles 0 (Inl (Error ''Aborted''))
   \<and> (sleep 100 (Some 7) (busyWorld\<lparr>abortTimes := [7 \<mapsto> 400]\<rparr>) :: (string, unit) promise)
       = Settles 100 (Inr ())
   \<and> (sleep 0 None (world0 :: string world) :: (string, unit) promise) = Settles 1 (Inr ())"
proof -
  have d: "timerDelay 100 = 100" "timerDelay 0 = 1" by (simp_all add: timerDelay_def)
  note a = sleep_spec [where signalArg = None and w = "world0 :: string world" and ms = 100
          and 'e = string]
  note b = sleep_spec [where signalArg = None and w = "busyWorld\<lparr>abortTimes := [7 \<mapsto> 40]\<rparr>"
          and ms = 100 and s = 7 and t = 40 and 'e = string]
  note c = sleep_spec [where signalArg = "Some 7" and s = 7 and ms = 100 and 'e = string
          and w = "busyWorld\<lparr>abortTimes := [7 \<mapsto> 40], now := 50\<rparr>"]
  note e = sleep_spec [where signalArg = "Some 7" and s = 7 and ms = 100 and t = 400
          and 'e = string and w = "busyWorld\<lparr>abortTimes := [7 \<mapsto> 400]\<rparr>"]
  note f = sleep_spec [where signalArg = None and w = "world0 :: string world" and ms = 0
          and 'e = string]
  show ?thesis using a b c e f by (simp add: d busyWorld_def world0_def aborted_def)
qed

section \<open>One attempt\<close>

lemma invokeSlots_append: "invokeSlots (xs @ ys) = invokeSlots xs @ invokeSlots ys"
  by (induction xs rule: invokeSlots.induct) auto

lemma attemptWork_settles:
  assumes "attemptPromise config e i = Settles d r"
  shows "\<exists>w'. attemptWork config e i w = (Some r, w')
           \<and> now w' = now w + int d
           \<and> activeSignal w' = activeSignal w
           \<and> trace w' = trace w @ [Invoke i (attemptSignal config w)]
           \<and> nextController w' = (if truthy (useAbortSignal config) then Suc (nextController w) else nextController w)"
proof -
  obtain p ab where pa: "withTimeout (fn e i) (timeoutMs config) (attemptSignal config w) = (p, ab)"
    by (cases "withTimeout (fn e i) (timeoutMs config) (attemptSignal config w)")
  have "p = Settles d r"
    using assms pa withTimeout_fst[of "fn e i" "timeoutMs config" "attemptSignal config w"]
    by (simp add: attemptPromise_def)
  with pa show ?thesis
    by (cases ab)
       (auto simp: attemptWork_def attemptSignal_def runWithActiveSignal_def Let_def emit_def
                   scheduleAbort_def)
qed



lemma emit_fields [simp]:
  "now (emit ev w) = now w" "activeSignal (emit ev w) = activeSignal w"
  "nextController (emit ev w) = nextController w" "abortTimes (emit ev w) = abortTimes w"
  "trace (emit ev w) = trace w @ [ev]"
  by (simp_all add: emit_def)

lemma attemptSignal_emit [simp]: "attemptSignal config (emit ev w) = attemptSignal config w"
  by (simp add: attemptSignal_def)

lemma onFailure_now: "now w = now w' \<Longrightarrow> fst (onFailure b w) = fst (onFailure b w')"
  by (simp add: onFailure_def Let_def)

lemma gate_some:
  assumes "canAttempt b (emit (OnAttempt nm i) w) = (ok, b1, w1)"
  shows "gated w w1 \<and> ok = fst (canAttempt b w) \<and> b1 = fst (snd (canAttempt b w))"
  using assms
  by (auto simp: canAttempt_def gated_def attemptsStarted_def invokeSlots_append
           split: if_splits)

lemma onFailure_props:
  assumes "onFailure b w = (b', w')"
  shows "now w' = now w \<and> activeSignal w' = activeSignal w \<and> nextController w' = nextController w
       \<and> invokeSlots (trace w') = invokeSlots (trace w)
       \<and> attemptsStarted (trace w') = attemptsStarted (trace w)
       \<and> cfg b' = cfg b \<and> failures b' = failures b + 1
       \<and> (failures b + 1 < failureThreshold (cfg b) \<longrightarrow> state b' = state b)
       \<and> (failureThreshold (cfg b) \<le> failures b + 1 \<longrightarrow> state b' = OPEN \<and> openedAt b' = now w)"
  using assms
  by (auto simp: onFailure_def Let_def attemptsStarted_def invokeSlots_append split: if_splits)


lemma attemptBody_refused:
  assumes "\<not> permitted breaker w"
  shows "attemptBody config e i breaker w =
           (Done (Some (Inl (Error (''CircuitOpenError: '' @ resolvedName config e)))),
            breaker, emit (OnAttempt (resolvedName config e) i) w)"
  using assms
  by (auto simp: attemptBody_def permitted_def canAttempt_def emit_def Let_def
           split: option.splits if_splits)

lemma attemptBody_failure:
  assumes perm: "permitted breaker w"
      and fail: "attemptPromise config e i = Settles d (Inl err)"
  shows "\<exists>b' w'. attemptBody config e i breaker w =
            (if i \<le> retriesOf config \<and> retryOnOf config err then Retry err
             else Done (Some (Inl err)), b', w')
          \<and> attemptRan config w w' \<and> activeSignal w' = activeSignal w
          \<and> (breaker = None \<longrightarrow> b' = None)
          \<and> (\<forall>b. breaker = Some b \<longrightarrow>
                b' = Some (fst (onFailure (fst (snd (canAttempt b w)))
                                  (w\<lparr>now := now w + int d\<rparr>))))"
proof (cases breaker)
  case None
  obtain w3 where w3: "attemptWork config e i (emit (OnAttempt (resolvedName config e) i) w) = (Some (Inl err), w3)"
    "now w3 = now w + int d" "activeSignal w3 = activeSignal w"
    "trace w3 = trace w @ [OnAttempt (resolvedName config e) i, Invoke i (attemptSignal config w)]"
    "nextController w3 = (if truthy (useAbortSignal config) then Suc (nextController w) else nextController w)"
    using attemptWork_settles[OF fail, of "emit (OnAttempt (resolvedName config e) i) w"] by auto
  show ?thesis
    using None w3
    by (auto simp: attemptBody_def Let_def attemptRan_def attemptsStarted_def invokeSlots_append)
next
  case (Some b)
  obtain b1 w1 where g: "canAttempt b (emit (OnAttempt (resolvedName config e) i) w) = (True, b1, w1)"
    and g1: "gated w w1" and b1: "b1 = fst (snd (canAttempt b w))"
    using perm Some gate_some[of b "resolvedName config e" i w]
    by (cases "canAttempt b (emit (OnAttempt (resolvedName config e) i) w)")
       (auto simp: permitted_def)
  obtain w3 where w3: "attemptWork config e i w1 = (Some (Inl err), w3)"
    "now w3 = now w1 + int d" "activeSignal w3 = activeSignal w1"
    "trace w3 = trace w1 @ [Invoke i (attemptSignal config w1)]"
    "nextController w3 = (if truthy (useAbortSignal config) then Suc (nextController w1) else nextController w1)"
    using attemptWork_settles[OF fail, of w1] by auto
  obtain b2 w4 where f: "onFailure b1 w3 = (b2, w4)" by (cases "onFailure b1 w3")
  note fp = onFailure_props[OF f]
  have sig: "attemptSignal config w1 = attemptSignal config w"
    using g1 by (simp add: attemptSignal_def gated_def)
  have "b2 = fst (onFailure (fst (snd (canAttempt b w))) (w\<lparr>now := now w + int d\<rparr>))"
    using f b1 w3(2) g1 onFailure_now[of w3 "w\<lparr>now := now w + int d\<rparr>" b1]
    by (simp add: gated_def)
  then show ?thesis
    using Some g g1 w3 f fp sig
    by (auto simp: attemptBody_def Let_def attemptRan_def attemptsStarted_def
                   invokeSlots_append gated_def)
qed





lemma slotsFrom_0 [simp]: "slotsFrom config c 0 = []"
  by (simp add: slotsFrom_def)


lemma length_slotsFrom [simp]: "length (slotsFrom config c m) = m"
  by (simp add: slotsFrom_def)


lemma closed_failure_step:
  assumes "state b = CLOSED"
      and "attemptBody config e i (Some b) w = (s, br, w')"
      and "attemptPromise config e i = Settles d (Inl err)"
  shows "br = Some (fst (onFailure b (w\<lparr>now := now w + int d\<rparr>)))"
proof -
  have perm: "permitted (Some b) w" using assms(1) by (simp add: permitted_def canAttempt_def)
  have "fst (snd (canAttempt b w)) = b" using assms(1) by (simp add: canAttempt_def)
  with attemptBody_failure[OF perm assms(3)] assms(2) show ?thesis by auto
qed

section \<open>The retry loop\<close>


lemma attemptLoop_done:
  "a \<le> retriesOf config + 1 \<Longrightarrow> attemptBody config e a breaker w = (Done r, b1, w1)
     \<Longrightarrow> attemptLoop config e a le breaker w = (r, b1, w1)"
  by (subst attemptLoop.simps) simp






lemma failureD: "failure p = Some err \<Longrightarrow> \<exists>d. p = Settles d (Inl err)"
  by (auto simp: failure_def split: promise.splits sum.splits)


lemma attemptLoop_refused:
  assumes "a \<le> retriesOf config + 1" "\<not> permitted breaker w"
  shows "attemptLoop config e a le breaker w
           = (Some (Inl (Error (''CircuitOpenError: '' @ resolvedName config e))), breaker,
              w\<lparr>trace := trace w @ [OnAttempt (resolvedName config e) a]\<rparr>)"
  using attemptBody_refused[OF assms(2), of config e a] assms(1)
  by (simp add: attemptLoop_done emit_def)

lemma half_open_probe_success:
  assumes "0 \<le> retriesOf config" "state b = OPEN"
      and "resetTimeoutMs (cfg b) \<le> now w - openedAt b"
      and "attemptPromise config e 1 = Settles d (Inr v)"
  shows "\<exists>b' w'. call config e (Some b) w = (Some (Inr v), Some b', w')
           \<and> state b' = CLOSED \<and> failures b' = 0
           \<and> trace w' = trace w @ [OnAttempt (resolvedName config e) 1, OnCircuitHalfOpen (bname b),
                                    Invoke 1 (attemptSignal config w), OnCircuitClosed (bname b),
                                    OnSuccess (resolvedName config e) 1 (int d)]"
proof -
  let ?w1 = "emit (OnCircuitHalfOpen (bname b)) (emit (OnAttempt (resolvedName config e) 1) w)"
  have g: "canAttempt b (emit (OnAttempt (resolvedName config e) 1) w)
             = (True, b\<lparr>state := HALF_OPEN\<rparr>, ?w1)"
    using assms(2,3) by (simp add: canAttempt_def)
  obtain w3 where w3: "attemptWork config e 1 ?w1 = (Some (Inr v), w3)"
    "now w3 = now ?w1 + int d" "trace w3 = trace ?w1 @ [Invoke 1 (attemptSignal config ?w1)]"
    using attemptWork_settles[OF assms(4), of ?w1] by auto
  have body: "attemptBody config e 1 (Some b) w =
      (Done (Some (Inr v)), Some (b\<lparr>state := CLOSED, failures := 0\<rparr>),
       emit (OnSuccess (resolvedName config e) 1 (int d)) (emit (OnCircuitClosed (bname b)) w3))"
    using g w3 by (simp add: attemptBody_def Let_def onSuccess_def)
  have "attemptLoop config e 1 None (Some b) w =
      (Some (Inr v), Some (b\<lparr>state := CLOSED, failures := 0\<rparr>),
       emit (OnSuccess (resolvedName config e) 1 (int d)) (emit (OnCircuitClosed (bname b)) w3))"
    using body assms(1) by (intro attemptLoop_done) auto
  then show ?thesis using w3 by (simp add: call_def)
qed


subsection \<open>The concrete scenarios, evaluated\<close>

lemma world0_counts:
  "invocations (trace world0) = 0" "attemptsStarted (trace world0) = 0"
  by (simp_all add: world0_def invocations_def attemptsStarted_def)







section \<open>Fail-fast on an open circuit\<close>

text \<open>
  C4. Whenever the breaker's \<open>canAttempt\<close> is false for an attempt of the loop, whatever
  the retries left, the retry predicate and the last error, the wrapped call ends at once
  with \<open>CircuitOpenError\<close>: the only trace left is that attempt's \<open>onAttempt\<close> firing (no
  invocation, no failure hook, no backoff, no further attempt), the clock has not moved,
  and the breaker is unchanged (\<open>onFailure\<close> has not run).
\<close>

theorem circuit_open_is_terminal:
  assumes "attempt \<le> retriesOf config + 1" "\<not> fst (canAttempt b w)"
  shows "attemptLoop config e attempt lastErr (Some b) w
           = (Some (Inl (Error (''CircuitOpenError: '' @ resolvedName config e))), Some b,
              w\<lparr>trace := trace w @ [OnAttempt (resolvedName config e) attempt]\<rparr>)"
proof -
  have "\<not> permitted (Some b) w" using assms(2) by (simp add: permitted_def)
  then have "attemptBody config e attempt (Some b) w =
           (Done (Some (Inl (Error (''CircuitOpenError: '' @ resolvedName config e)))),
            Some b, emit (OnAttempt (resolvedName config e) attempt) w)"
    by (rule attemptBody_refused)
  then show ?thesis
    using assms(1) by (simp add: attemptLoop_done emit_def)
qed

theorem circuit_open_is_terminal_witness:
  "attemptLoop tripConfig boomEnv 2 (Some (Thrown ''boom'')) (Some struck) busyWorld
     = (Some (Inl (Error ''CircuitOpenError: f'')), Some struck,
        busyWorld\<lparr>trace := [OnAttempt ''f'' 2]\<rparr>)"
  using circuit_open_is_terminal [of 2 tripConfig struck busyWorld boomEnv "Some (Thrown ''boom'')"]
  by (simp add: tripConfig_def defaults_def boomEnv_def struck_def busyWorld_def world0_def
                retriesOf_def resolvedName_def canAttempt_def)

section \<open>The retry predicate\<close>

text \<open>
  C9. For every retry count (\<open>\<ge> 0\<close>, so that there is a first attempt): if the first
  attempt fails with an error the retry predicate rejects, the wrapped call makes exactly
  one attempt and rejects with that very error. (When the breaker refuses the first
  attempt the callable is not invoked and the failure is the \<open>CircuitOpenError\<close>; the
  call still makes exactly one attempt.)
\<close>

theorem retry_predicate_stops_retries:
  assumes "0 \<le> retriesOf config"
      and "failure (attemptPromise config e 1) = Some err"
      and "\<not> retryOnOf config err"
  shows "\<exists>breaker' w'. call config e breaker w =
            (Some (Inl (if permitted breaker w then err
                        else Error (''CircuitOpenError: '' @ resolvedName config e))),
             breaker', w')
           \<and> attemptsStarted (trace w') = attemptsStarted (trace w) + 1
           \<and> invocations (trace w') = invocations (trace w) + (if permitted breaker w then 1 else 0)"
proof (cases "permitted breaker w")
  case True
  from failureD[OF assms(2)]
  obtain d where p: "attemptPromise config e 1 = Settles d (Inl err)" ..
  from attemptBody_failure[OF True p]
  obtain b2 w2 where body: "attemptBody config e 1 breaker w = (Done (Some (Inl err)), b2, w2)"
    and ran: "attemptRan config w w2"
    using assms(3) by auto
  have "attemptLoop config e 1 None breaker w = (Some (Inl err), b2, w2)"
    using body assms(1) by (intro attemptLoop_done) auto
  then show ?thesis
    using True ran by (simp add: call_def attemptRan_def invocations_def)
next
  case False
  have "attemptLoop config e 1 None breaker w =
           (Some (Inl (Error (''CircuitOpenError: '' @ resolvedName config e))),
            breaker, emit (OnAttempt (resolvedName config e) 1) w)"
    using attemptBody_refused[OF False] assms(1) by (intro attemptLoop_done) auto
  then show ?thesis
    using False by (simp add: call_def attemptsStarted_def invocations_def invokeSlots_append)
qed

theorem retry_predicate_stops_retries_witness:
  "\<exists>breaker' w'. call retryTimeoutsOnly boomEnv None world0
                    = (Some (Inl (Thrown ''boom'')), breaker', w')
       \<and> attemptsStarted (trace w') = 1 \<and> invocations (trace w') = 1"
proof -
  have h1: "0 \<le> retriesOf retryTimeoutsOnly"
    by (simp add: retryTimeoutsOnly_def defaults_def retriesOf_def)
  have h2: "failure (attemptPromise retryTimeoutsOnly boomEnv 1) = Some (Thrown ''boom'')"
    by (simp add: retryTimeoutsOnly_def defaults_def boomEnv_def attemptPromise_def
                  withTimeout_def failure_def)
  have h3: "\<not> retryOnOf retryTimeoutsOnly (Thrown ''boom'')"
    by (simp add: retryTimeoutsOnly_def defaults_def retryOnOf_def)
  from retry_predicate_stops_retries [OF h1 h2 h3, of None world0]
  show ?thesis by (simp add: world0_counts permitted_def)
qed

section \<open>Retries\<close>







section \<open>The breaker in the wrapped callable\<close>

text \<open>
  C3. For a wrapped callable with \<open>circuitBreaker {failureThreshold: 3, resetTimeoutMs: R}\<close>
  the breaker starts CLOSED with no failures. From a CLOSED breaker with no failures,
  three consecutive failed attempts (in one call or across calls) leave it CLOSED after
  the first and the second and OPEN after the third, with 3 failures, opened at the
  instant of the third failure. A call made on the OPEN breaker before \<open>R\<close> ms have passed
  since the opening rejects with \<open>CircuitOpenError\<close> without invoking the callable and
  leaves the breaker as it is. A call made once \<open>R\<close> ms have passed is let through, the
  breaker going to HALF_OPEN first, and when its attempt succeeds the breaker is CLOSED
  with 0 failures.
\<close>

theorem circuit_breaker_threshold_three:
  assumes "circuitBreaker config = Some \<lparr>failureThreshold = 3, resetTimeoutMs = R\<rparr>"
  shows "(\<exists>b. withResilience e config = Some b \<and> state b = CLOSED \<and> failures b = 0
              \<and> cfg b = \<lparr>failureThreshold = 3, resetTimeoutMs = R\<rparr>)
       \<and> (state bInit = CLOSED \<and> failures bInit = 0
          \<and> cfg bInit = \<lparr>failureThreshold = 3, resetTimeoutMs = R\<rparr>
          \<and> attemptBody config eA iA (Some bInit) wA = (sA, brA, wA')
          \<and> attemptPromise config eA iA = Settles dA (Inl errA)
          \<and> attemptBody config eB iB brA wB = (sB, brB, wB')
          \<and> attemptPromise config eB iB = Settles dB (Inl errB)
          \<and> attemptBody config eC iC brB wC = (sC, brC, wC')
          \<and> attemptPromise config eC iC = Settles dC (Inl errC)
          \<longrightarrow> (\<exists>b1 b2 b3. brA = Some b1 \<and> state b1 = CLOSED
                  \<and> brB = Some b2 \<and> state b2 = CLOSED
                  \<and> brC = Some b3 \<and> state b3 = OPEN \<and> failures b3 = 3
                  \<and> openedAt b3 = now wC + int dC
                  \<and> cfg b3 = \<lparr>failureThreshold = 3, resetTimeoutMs = R\<rparr>))
       \<and> (0 \<le> retriesOf config \<and> state b = OPEN
          \<and> cfg b = \<lparr>failureThreshold = 3, resetTimeoutMs = R\<rparr>
          \<and> now w - openedAt b < R
          \<longrightarrow> call config e (Some b) w
                = (Some (Inl (Error (''CircuitOpenError: '' @ resolvedName config e))), Some b,
                   w\<lparr>trace := trace w @ [OnAttempt (resolvedName config e) 1]\<rparr>))
       \<and> (0 \<le> retriesOf config \<and> state b = OPEN
          \<and> cfg b = \<lparr>failureThreshold = 3, resetTimeoutMs = R\<rparr>
          \<and> R \<le> now w - openedAt b
          \<and> attemptPromise config e 1 = Settles d (Inr v)
          \<longrightarrow> fst (canAttempt b w) \<and> state (fst (snd (canAttempt b w))) = HALF_OPEN
              \<and> (\<exists>b' w'. call config e (Some b) w = (Some (Inr v), Some b', w')
                    \<and> state b' = CLOSED \<and> failures b' = 0
                    \<and> trace w' = trace w @ [OnAttempt (resolvedName config e) 1,
                          OnCircuitHalfOpen (bname b), Invoke 1 (attemptSignal config w),
                          OnCircuitClosed (bname b), OnSuccess (resolvedName config e) 1 (int d)]))"
proof (intro conjI impI)
  show "\<exists>b. withResilience e config = Some b \<and> state b = CLOSED \<and> failures b = 0
              \<and> cfg b = \<lparr>failureThreshold = 3, resetTimeoutMs = R\<rparr>"
    using assms by (simp add: withResilience_def newCircuitBreaker_def)
next
  assume a: "state bInit = CLOSED \<and> failures bInit = 0
          \<and> cfg bInit = \<lparr>failureThreshold = 3, resetTimeoutMs = R\<rparr>
          \<and> attemptBody config eA iA (Some bInit) wA = (sA, brA, wA')
          \<and> attemptPromise config eA iA = Settles dA (Inl errA)
          \<and> attemptBody config eB iB brA wB = (sB, brB, wB')
          \<and> attemptPromise config eB iB = Settles dB (Inl errB)
          \<and> attemptBody config eC iC brB wC = (sC, brC, wC')
          \<and> attemptPromise config eC iC = Settles dC (Inl errC)"
  let ?c = "\<lparr>failureThreshold = 3, resetTimeoutMs = R\<rparr>"
  let ?b1 = "fst (onFailure bInit (wA\<lparr>now := now wA + int dA\<rparr>))"
  let ?b2 = "fst (onFailure ?b1 (wB\<lparr>now := now wB + int dB\<rparr>))"
  let ?b3 = "fst (onFailure ?b2 (wC\<lparr>now := now wC + int dC\<rparr>))"
  have s0: "state bInit = CLOSED" using a by simp
  have b1: "brA = Some ?b1"
    using closed_failure_step[OF s0, of config eA iA wA sA brA wA' dA errA] a by simp
  have s1: "state ?b1 = CLOSED" using a by (simp add: onFailure_def)
  have b2: "brB = Some ?b2"
    using closed_failure_step[OF s1, of config eB iB wB sB brB wB' dB errB] a b1 by simp
  have s2: "state ?b2 = CLOSED" using a by (simp add: onFailure_def)
  have b3: "brC = Some ?b3"
    using closed_failure_step[OF s2, of config eC iC wC sC brC wC' dC errC] a b2 by simp
  have "state ?b3 = OPEN \<and> failures ?b3 = 3 \<and> openedAt ?b3 = now wC + int dC \<and> cfg ?b3 = ?c"
    using a by (simp add: onFailure_def)
  with b1 s1 b2 s2 b3 show "\<exists>b1 b2 b3. brA = Some b1 \<and> state b1 = CLOSED
                  \<and> brB = Some b2 \<and> state b2 = CLOSED
                  \<and> brC = Some b3 \<and> state b3 = OPEN \<and> failures b3 = 3
                  \<and> openedAt b3 = now wC + int dC \<and> cfg b3 = ?c" by blast
next
  assume a: "0 \<le> retriesOf config \<and> state b = OPEN
          \<and> cfg b = \<lparr>failureThreshold = 3, resetTimeoutMs = R\<rparr> \<and> now w - openedAt b < R"
  then have "\<not> permitted (Some b) w" by (simp add: permitted_def canAttempt_def)
  then show "call config e (Some b) w
                = (Some (Inl (Error (''CircuitOpenError: '' @ resolvedName config e))), Some b,
                   w\<lparr>trace := trace w @ [OnAttempt (resolvedName config e) 1]\<rparr>)"
    unfolding call_def using a by (intro attemptLoop_refused) auto
next
  assume a: "0 \<le> retriesOf config \<and> state b = OPEN
          \<and> cfg b = \<lparr>failureThreshold = 3, resetTimeoutMs = R\<rparr>
          \<and> R \<le> now w - openedAt b
          \<and> attemptPromise config e 1 = Settles d (Inr v)"
  then show "fst (canAttempt b w)" by (simp add: canAttempt_def)
  from a show "state (fst (snd (canAttempt b w))) = HALF_OPEN" by (simp add: canAttempt_def)
  from a show "\<exists>b' w'. call config e (Some b) w = (Some (Inr v), Some b', w')
                    \<and> state b' = CLOSED \<and> failures b' = 0
                    \<and> trace w' = trace w @ [OnAttempt (resolvedName config e) 1,
                          OnCircuitHalfOpen (bname b), Invoke 1 (attemptSignal config w),
                          OnCircuitClosed (bname b), OnSuccess (resolvedName config e) 1 (int d)]"
    by (intro half_open_probe_success) auto
qed

theorem circuit_breaker_threshold_three_witness:
  "(\<exists>b1 b2 b3.
       fst (snd (attemptBody threeStrikes boomEnv 1
                   (withResilience boomEnv threeStrikes) world0)) = Some b1
       \<and> state b1 = CLOSED
       \<and> fst (snd (attemptBody threeStrikes boomEnv 1 (Some b1) world0)) = Some b2
       \<and> state b2 = CLOSED
       \<and> fst (snd (attemptBody threeStrikes boomEnv 1 (Some b2) world0)) = Some b3
       \<and> state b3 = OPEN \<and> failures b3 = 3 \<and> openedAt b3 = 5)
   \<and> call threeStrikes okEnv (Some struck) (world0\<lparr>now := 50\<rparr>)
       = (Some (Inl (Error ''CircuitOpenError: f'')), Some struck,
          world0\<lparr>now := 50, trace := [OnAttempt ''f'' 1]\<rparr>)
   \<and> (\<exists>b' w'. call threeStrikes okEnv (Some struck) (world0\<lparr>now := 200\<rparr>)
                  = (Some (Inr 42), Some b', w')
         \<and> state b' = CLOSED \<and> failures b' = 0
         \<and> trace w' = [OnAttempt ''f'' 1, OnCircuitHalfOpen ''f'', Invoke 1 None,
                        OnCircuitClosed ''f'', OnSuccess ''f'' 1 5])"
proof -
  let ?c = "\<lparr>failureThreshold = 3, resetTimeoutMs = 100\<rparr>"
  let ?b0 = "newCircuitBreaker ?c ''f''"
  let ?A = "attemptBody threeStrikes boomEnv 1 (Some ?b0) (world0 :: string world)"
  let ?B = "attemptBody threeStrikes boomEnv 1 (fst (snd ?A)) (world0 :: string world)"
  let ?C = "attemptBody threeStrikes boomEnv 1 (fst (snd ?B)) (world0 :: string world)"
  have c: "circuitBreaker threeStrikes = Some ?c"
    by (simp add: threeStrikes_def defaults_def)
  have wr: "withResilience boomEnv threeStrikes = Some ?b0"
    by (simp add: withResilience_def resolvedName_def threeStrikes_def defaults_def boomEnv_def)
  have p: "attemptPromise threeStrikes boomEnv 1 = Settles 5 (Inl (Thrown ''boom''))"
    "attemptPromise threeStrikes okEnv 1 = Settles 5 (Inr 42)"
    by (simp_all add: attemptPromise_def withTimeout_def threeStrikes_def defaults_def
                      boomEnv_def okEnv_def)
  have r: "0 \<le> retriesOf threeStrikes" "resolvedName threeStrikes okEnv = ''f''"
    "attemptSignal threeStrikes w = None" for w :: "string world"
    by (simp_all add: retriesOf_def resolvedName_def attemptSignal_def truthy_def
                      threeStrikes_def defaults_def okEnv_def)
  note t = circuit_breaker_threshold_three [OF c,
      where bInit = ?b0
        and eA = boomEnv and iA = 1 and wA = world0 and dA = 5 and errA = "Thrown ''boom''"
        and eB = boomEnv and iB = 1 and wB = world0 and dB = 5 and errB = "Thrown ''boom''"
        and eC = boomEnv and iC = 1 and wC = world0 and dC = 5 and errC = "Thrown ''boom''"
        and sA = "fst ?A" and brA = "fst (snd ?A)" and wA' = "snd (snd ?A)"
        and sB = "fst ?B" and brB = "fst (snd ?B)" and wB' = "snd (snd ?B)"
        and sC = "fst ?C" and brC = "fst (snd ?C)" and wC' = "snd (snd ?C)"
        and e = okEnv and b = struck and d = 5 and v = 42]
  have "\<exists>b1 b2 b3. fst (snd ?A) = Some b1 \<and> state b1 = CLOSED
          \<and> fst (snd ?B) = Some b2 \<and> state b2 = CLOSED
          \<and> fst (snd ?C) = Some b3 \<and> state b3 = OPEN \<and> failures b3 = 3
          \<and> openedAt b3 = now (world0 :: string world) + int 5 \<and> cfg b3 = ?c"
    using t [where w = world0, THEN conjunct2, THEN conjunct1] p(1)
    by (simp add: newCircuitBreaker_def)
  then obtain b1 b2 b3 where
    "fst (snd ?A) = Some b1" "state b1 = CLOSED"
    "fst (snd (attemptBody threeStrikes boomEnv 1 (Some b1) (world0 :: string world))) = Some b2"
    "state b2 = CLOSED"
    "fst (snd (attemptBody threeStrikes boomEnv 1 (Some b2) (world0 :: string world))) = Some b3"
    "state b3 = OPEN" "failures b3 = 3" "openedAt b3 = 5"
    by (auto simp: world0_def)
  then have 1: "\<exists>b1 b2 b3.
       fst (snd (attemptBody threeStrikes boomEnv 1
                   (withResilience boomEnv threeStrikes) world0)) = Some b1
       \<and> state b1 = CLOSED
       \<and> fst (snd (attemptBody threeStrikes boomEnv 1 (Some b1) world0)) = Some b2
       \<and> state b2 = CLOSED
       \<and> fst (snd (attemptBody threeStrikes boomEnv 1 (Some b2) world0)) = Some b3
       \<and> state b3 = OPEN \<and> failures b3 = 3 \<and> openedAt b3 = 5"
    unfolding wr by blast
  have 2: "call threeStrikes okEnv (Some struck) (world0\<lparr>now := 50\<rparr>)
       = (Some (Inl (Error ''CircuitOpenError: f'')), Some struck,
          world0\<lparr>now := 50, trace := [OnAttempt ''f'' 1]\<rparr>)"
    using t [where w = "world0\<lparr>now := 50\<rparr>"] r by (simp add: struck_def world0_def)
  have 3: "\<exists>b' w'. call threeStrikes okEnv (Some struck) (world0\<lparr>now := 200\<rparr>)
                  = (Some (Inr 42), Some b', w')
         \<and> state b' = CLOSED \<and> failures b' = 0
         \<and> trace w' = [OnAttempt ''f'' 1, OnCircuitHalfOpen ''f'', Invoke 1 None,
                        OnCircuitClosed ''f'', OnSuccess ''f'' 1 5]"
    using t [where w = "world0\<lparr>now := 200\<rparr>"] r p by (simp add: struck_def world0_def)
  from 1 2 3 show ?thesis by blast
qed

section \<open>Ambient cancellation context\<close>




















end
